theory Spec2Isabelle
  imports Complex_Main "HOL-Library.Word" "HOL-Library.Sublist" "HOL-Library.AList"
begin

section \<open>data\_loader.py: cleaning the ratings table\<close>

text \<open>
  A pandas float64 cell is kept as its 64 bits. The ratings table of MovieLens has the
  columns userId, movieId, rating and timestamp; a DataFrame is the list of its rows, in
  row order.
\<close>

type_synonym float64 = "64 word"

record rating_row =
  userId :: int
  movieId :: int
  rating :: float64
  timestamp :: int

text \<open>
  \<^verbatim>\<open>Series.value_counts()\<close>: every distinct value of the column with the number of rows
  holding it. pandas sorts the result by count; \<open>clean_data\<close> only reads the index
  of the entries it keeps, so the order is left as first occurrence.
\<close>

definition value_counts :: "'a list \<Rightarrow> ('a \<times> nat) list" where
  "value_counts col = map (\<lambda>v. (v, count_list col v)) (remdups col)"

text \<open>\<^verbatim>\<open>counts[counts >= n].index\<close>\<close>

definition index_at_least :: "('a \<times> nat) list \<Rightarrow> int \<Rightarrow> 'a list" where
  "index_at_least counts n = map fst (filter (\<lambda>(v, c). n \<le> int c) counts)"

text \<open>\<^verbatim>\<open>col.isin(vals)\<close>: the boolean column; \<^verbatim>\<open>df[bs]\<close>: the rows whose flag is set.\<close>

definition isin :: "'a list \<Rightarrow> 'a list \<Rightarrow> bool list" where
  "isin col vals = map (\<lambda>v. v \<in> set vals) col"

definition select_rows :: "'r list \<Rightarrow> bool list \<Rightarrow> 'r list" where
  "select_rows rows bs = map fst (filter snd (zip rows bs))"

definition clean_data :: "rating_row list \<Rightarrow> int \<Rightarrow> int \<Rightarrow> rating_row list" where
  "clean_data ratings min_ratings min_users =
     (let movie_counts = value_counts (map movieId ratings);
          ratings1 = select_rows ratings
            (isin (map movieId ratings) (index_at_least movie_counts min_ratings));
          user_counts = value_counts (map userId ratings1);
          ratings2 = select_rows ratings1
            (isin (map userId ratings1) (index_at_least user_counts min_users))
      in ratings2)"

text \<open>
  A table of 100 ratings without a repeated (user, movie) pair: user 1 rates the movies
  1 to 10, the users 2 to 10 rate movie 1 only, and the users 11 to 19 rate the movies
  2 to 10.
\<close>

definition rated :: "int \<Rightarrow> int \<Rightarrow> rating_row" where
  "rated u m = \<lparr>userId = u, movieId = m, rating = 0, timestamp = 0\<rparr>"

definition sparse_table :: "rating_row list" where
  "sparse_table =
     map (\<lambda>m. rated 1 m) [1..10] @
     map (\<lambda>u. rated u 1) [2..10] @
     concat (map (\<lambda>u. map (\<lambda>m. rated u m) [2..10]) [11..19])"


section \<open>api\_client.py: values, exceptions and the outside world\<close>

text \<open>
  What \<^verbatim>\<open>response.json()\<close> and \<^verbatim>\<open>json.load\<close> return: Python's None, bool, int, float,
  str, list, and dict with string keys (the items in insertion order).
\<close>

datatype jvalue =
    JNone
  | JBool bool
  | JInt int
  | JFloat float64
  | JStr string
  | JList "jvalue list"
  | JDict "(string \<times> jvalue) list"

text \<open>
  The exception classes that occur. \<open>RequestException\<close> stands for every instance of
  \<^verbatim>\<open>requests.RequestException\<close> (connection errors, timeouts, and the JSON decoding error of
  the requests versions that derive it from that class).
\<close>

datatype exn =
    RequestException
  | ValueError
  | AttributeError
  | TypeError
  | KeyError
  | IndexError
  | FileNotFoundError
  | IsADirectoryError
  | NotADirectoryError
  | OverflowError
  | OSError

record response =
  status_code :: int
  Retry_After :: "string option"
  url :: string
  response_text :: string
  json :: "exn + jvalue"

datatype outcome = Raises exn | Responds response

datatype level = DEBUG | INFO | WARNING | ERROR

datatype message =
    Request_URL string
  | Rate_limited int
  | TMDB_API_error int string
  | Request_exception exn
  | Exceeded_max_retries

datatype event = Request string | Sleep rat | Log level message

datatype fs_entry = File string | Directory

text \<open>
  The environment of a process: the API key read at import (the module raises at import
  when it is unset or empty), the network as a function of the number of requests issued
  before, the URL and the query parameters, the sleeps of more than a second that the
  platform's clock accepts, and the JSON library.
\<close>

record env =
  TMDB_API_KEY :: string
  transport :: "nat \<Rightarrow> string \<Rightarrow> (string \<rightharpoonup> string) \<Rightarrow> outcome"
  platform_accepts :: "rat \<Rightarrow> bool"
  json_load :: "string \<Rightarrow> exn + jvalue"
  json_dump :: "(int \<times> jvalue) list \<Rightarrow> string"

text \<open>
  The state of a process: the number of requests issued, what it did in order (requests,
  sleeps, log calls), the dictionaries passed as query parameters (by reference), the
  memoization cache of \<open>search_movie\<close> (most recently used first) and the file system.
\<close>

record world =
  calls :: nat
  trace :: "event list"
  heap :: "nat \<Rightarrow> (string \<rightharpoonup> string)"
  next_ref :: nat
  search_movie_cache :: "(string \<times> jvalue) list"
  fs :: "string \<rightharpoonup> fs_entry"

definition BASE_URL :: string where
  "BASE_URL = ''https://api.themoviedb.org/3''"

definition RETRIES :: nat where
  "RETRIES = 3"

definition WAIT_TIME :: int where
  "WAIT_TIME = 1"

definition maxsize :: nat where
  "maxsize = 500"

subsection \<open>Library functions\<close>

text \<open>
  \<^verbatim>\<open>time.sleep(secs)\<close> in CPython: the argument is converted to a signed 64-bit number of
  nanoseconds, which raises OverflowError when it does not fit (from 9223372037 seconds
  on); a negative argument then raises ValueError; and the system call raises OSError when
  the platform's clock cannot hold the deadline (seen for sleeps of some 9.2e9 seconds,
  depending on how long the machine has been up). Which sleeps of more than a second the
  platform accepts is left to the environment; the sleeps that the module asks for by
  itself, of 1 and of 0.25 seconds, are accepted.
\<close>

definition time_sleep :: "env \<Rightarrow> rat \<Rightarrow> world \<Rightarrow> exn + world" where
  "time_sleep E secs w =
     (if 9223372036854775807 < secs * 1000000000 \<or> secs * 1000000000 < - 9223372036854775808
      then Inl OverflowError
      else if secs < 0 then Inl ValueError
      else if 1 < secs \<and> \<not> platform_accepts E secs then Inl OSError
      else Inr (w\<lparr>trace := trace w @ [Sleep secs]\<rparr>))"

definition logger :: "level \<Rightarrow> message \<Rightarrow> world \<Rightarrow> world" where
  "logger l m w = w\<lparr>trace := trace w @ [Log l m]\<rparr>"

text \<open>
  \<^verbatim>\<open>int(s)\<close> on a string of one-byte characters: surrounding whitespace is dropped (the
  characters 9 to 13, 32, 133 and 160), then an optional sign and decimal digits, single
  underscores allowed between digits. A literal
  of more than 4300 digits (the default of \<^verbatim>\<open>sys.get_int_max_str_digits()\<close>) raises
  ValueError as an invalid one does.
\<close>

definition max_str_digits :: nat where
  "max_str_digits = 4300"

definition py_isspace :: "char \<Rightarrow> bool" where
  "py_isspace c =
     (let n = of_char c :: nat
      in (9 \<le> n \<and> n \<le> 13) \<or> n = 32 \<or> n = 133 \<or> n = 160)"

definition py_strip :: "string \<Rightarrow> string" where
  "py_strip s = rev (dropWhile py_isspace (rev (dropWhile py_isspace s)))"

definition is_digit :: "char \<Rightarrow> bool" where
  "is_digit c = (let n = of_char c :: nat in 48 \<le> n \<and> n \<le> 57)"

definition digit_val :: "char \<Rightarrow> int" where
  "digit_val c = int (of_char c) - 48"

fun parse_digits :: "int \<Rightarrow> bool \<Rightarrow> string \<Rightarrow> int option" where
  "parse_digits acc after_digit [] = (if after_digit then Some acc else None)"
| "parse_digits acc after_digit (c # cs) =
     (if is_digit c then parse_digits (10 * acc + digit_val c) True cs
      else if c = CHR ''_'' \<and> after_digit then parse_digits acc False cs
      else None)"

definition py_int :: "string \<Rightarrow> exn + int" where
  "py_int s =
     (case py_strip s of
        [] \<Rightarrow> Inl ValueError
      | c # cs \<Rightarrow>
          (let (sgn, body) =
                 (if c = CHR ''-'' then (- 1, cs)
                  else if c = CHR ''+'' then (1, cs)
                  else (1, c # cs))
           in case parse_digits 0 False body of
                None \<Rightarrow> Inl ValueError
              | Some n \<Rightarrow>
                  (if max_str_digits < length (filter is_digit body) then Inl ValueError
                   else Inr (sgn * n))))"

text \<open>Truth value of a Python object; a float is false when it is plus or minus zero.\<close>

fun truthy :: "jvalue \<Rightarrow> bool" where
  "truthy JNone = False"
| "truthy (JBool b) = b"
| "truthy (JInt n) = (n \<noteq> 0)"
| "truthy (JFloat x) = (take_bit 63 x \<noteq> 0)"
| "truthy (JStr s) = (s \<noteq> [])"
| "truthy (JList xs) = (xs \<noteq> [])"
| "truthy (JDict kvs) = (kvs \<noteq> [])"

text \<open>\<^verbatim>\<open>result.get("results", [])\<close>: only a dict has the method.\<close>

fun get_results :: "jvalue \<Rightarrow> exn + jvalue" where
  "get_results (JDict kvs) =
     (case map_of kvs ''results'' of None \<Rightarrow> Inr (JList []) | Some v \<Rightarrow> Inr v)"
| "get_results _ = Inl AttributeError"

text \<open>\<^verbatim>\<open>x[0]\<close> and \<^verbatim>\<open>x["id"]\<close>.\<close>

fun subscript_0 :: "jvalue \<Rightarrow> exn + jvalue" where
  "subscript_0 (JList []) = Inl IndexError"
| "subscript_0 (JList (x # xs)) = Inr x"
| "subscript_0 (JStr []) = Inl IndexError"
| "subscript_0 (JStr (c # cs)) = Inr (JStr [c])"
| "subscript_0 (JDict kvs) = Inl KeyError"
| "subscript_0 _ = Inl TypeError"

fun subscript_id :: "jvalue \<Rightarrow> exn + jvalue" where
  "subscript_id (JDict kvs) =
     (case map_of kvs ''id'' of None \<Rightarrow> Inl KeyError | Some v \<Rightarrow> Inr v)"
| "subscript_id _ = Inl TypeError"

text \<open>
  \<^verbatim>\<open>s.split(sep)\<close>: the pieces between the occurrences of \<open>sep\<close>, found from the left
  without overlap; an empty separator raises ValueError.
\<close>

function split_from :: "string \<Rightarrow> string \<Rightarrow> string \<Rightarrow> string list" where
  "split_from sep acc s =
     (if sep \<noteq> [] \<and> prefix sep s then rev acc # split_from sep [] (drop (length sep) s)
      else case s of
             [] \<Rightarrow> [rev acc]
           | c # cs \<Rightarrow> split_from sep (c # acc) cs)"
  by pat_completeness auto
termination
  by (relation "measure (\<lambda>(sep, acc, s). length s)") (auto simp: prefix_def)

definition py_split :: "string \<Rightarrow> string \<Rightarrow> exn + string list" where
  "py_split s sep = (if sep = [] then Inl ValueError else Inr (split_from sep [] s))"

definition item_0 :: "'a list \<Rightarrow> exn + 'a" where
  "item_0 xs = (case xs of [] \<Rightarrow> Inl IndexError | x # _ \<Rightarrow> Inr x)"

subsection \<open>The file system\<close>

definition os_path_exists :: "world \<Rightarrow> string \<Rightarrow> bool" where
  "os_path_exists w p = (fs w p \<noteq> None)"

definition open_read :: "world \<Rightarrow> string \<Rightarrow> exn + string" where
  "open_read w p =
     (case fs w p of
        None \<Rightarrow> Inl FileNotFoundError
      | Some Directory \<Rightarrow> Inl IsADirectoryError
      | Some (File c) \<Rightarrow> Inr c)"

text \<open>Writing a file in mode "w" needs its directory; the file is created or replaced.\<close>

definition open_write :: "world \<Rightarrow> string \<Rightarrow> string \<Rightarrow> string \<Rightarrow> exn + world" where
  "open_write w dir p content =
     (case fs w dir of
        None \<Rightarrow> Inl FileNotFoundError
      | Some (File _) \<Rightarrow> Inl NotADirectoryError
      | Some Directory \<Rightarrow>
          (if fs w p = Some Directory then Inl IsADirectoryError
           else Inr (w\<lparr>fs := (fs w)(p \<mapsto> File content)\<rparr>)))"


section \<open>api\_client.py: the client\<close>

text \<open>\<^verbatim>\<open>requests.get(url, params=params)\<close>, with \<open>params\<close> the dictionary at reference \<open>r\<close>.\<close>

definition requests_get :: "env \<Rightarrow> string \<Rightarrow> nat \<Rightarrow> world \<Rightarrow> outcome \<times> world" where
  "requests_get E u r w =
     (transport E (calls w) u (heap w r),
      w\<lparr>calls := Suc (calls w), trace := trace w @ [Request u]\<rparr>)"

text \<open>\<^verbatim>\<open>int(response.headers.get("Retry-After", 1))\<close>\<close>

definition retry_after :: "response \<Rightarrow> exn + int" where
  "retry_after resp = (case Retry_After resp of None \<Rightarrow> Inr 1 | Some s \<Rightarrow> py_int s)"

text \<open>
  One pass through the body of the \<^verbatim>\<open>try\<close>: it returns from the function, falls through to
  the next iteration, or raises.
\<close>

datatype control = Return jvalue | Continue | Raise exn

definition try_body :: "env \<Rightarrow> string \<Rightarrow> nat \<Rightarrow> world \<Rightarrow> control \<times> world" where
  "try_body E u r w =
     (case requests_get E u r w of
        (Raises e, w1) \<Rightarrow> (Raise e, w1)
      | (Responds resp, w1) \<Rightarrow>
          (let w2 = logger DEBUG (Request_URL (url resp)) w1
           in if status_code resp = 429 then
                (case retry_after resp of
                   Inl e \<Rightarrow> (Raise e, w2)
                 | Inr secs \<Rightarrow>
                     (let w3 = logger WARNING (Rate_limited secs) w2
                      in case time_sleep E (of_int secs) w3 of
                           Inl e \<Rightarrow> (Raise e, w3)
                         | Inr w4 \<Rightarrow> (Continue, w4)))
              else if status_code resp = 200 then
                (case json resp of
                   Inl e \<Rightarrow> (Raise e, w2)
                 | Inr v \<Rightarrow> (Return v, w2))
              else
                (Return JNone,
                 logger ERROR (TMDB_API_error (status_code resp) (response_text resp)) w2)))"

text \<open>
  \<^verbatim>\<open>for attempt in range(RETRIES)\<close>, by the number of iterations left. The \<^verbatim>\<open>except\<close> clause
  catches \<^verbatim>\<open>requests.RequestException\<close> only; any other exception leaves the function.
\<close>

fun attempts :: "env \<Rightarrow> string \<Rightarrow> nat \<Rightarrow> nat \<Rightarrow> world \<Rightarrow> (exn + jvalue) \<times> world" where
  "attempts E u r 0 w = (Inr JNone, logger ERROR Exceeded_max_retries w)"
| "attempts E u r (Suc n) w =
     (case try_body E u r w of
        (Return v, w1) \<Rightarrow> (Inr v, w1)
      | (Continue, w1) \<Rightarrow> attempts E u r n w1
      | (Raise e, w1) \<Rightarrow>
          (if e = RequestException then
             (let w2 = logger WARNING (Request_exception e) w1
              in case time_sleep E (of_int WAIT_TIME) w2 of
                   Inl e' \<Rightarrow> (Inl e', w2)
                 | Inr w3 \<Rightarrow> attempts E u r n w3)
           else (Inl e, w1)))"

text \<open>
  \<open>_handle_request(endpoint, params)\<close>; \<open>params\<close> is None or the reference of the
  caller's dictionary.
\<close>

definition handle_request ::
  "env \<Rightarrow> string \<Rightarrow> nat option \<Rightarrow> world \<Rightarrow> (exn + jvalue) \<times> world" where
  "handle_request E endpoint params w =
     (let (r, w0) =
            (case params of
               None \<Rightarrow>
                 (next_ref w,
                  w\<lparr>heap := (heap w)(next_ref w := Map.empty),
                    next_ref := Suc (next_ref w)\<rparr>)
             | Some r \<Rightarrow> (r, w));
          w1 = w0\<lparr>heap := (heap w0)(r := (heap w0 r)(''api_key'' \<mapsto> TMDB_API_KEY E))\<rparr>;
          u = BASE_URL @ endpoint
      in attempts E u r RETRIES w1)"

text \<open>The body of \<open>search_movie\<close>, which builds the dictionary \<^verbatim>\<open>{"query": title}\<close>.\<close>

definition search_movie_body :: "env \<Rightarrow> string \<Rightarrow> world \<Rightarrow> (exn + jvalue) \<times> world" where
  "search_movie_body E title w =
     (let r = next_ref w;
          w0 = w\<lparr>heap := (heap w)(r := [''query'' \<mapsto> title]), next_ref := Suc r\<rparr>
      in case handle_request E ''/search/movie'' (Some r) w0 of
           (Inl e, w1) \<Rightarrow> (Inl e, w1)
         | (Inr result, w1) \<Rightarrow>
             ((if truthy result then get_results result else Inr (JList [])), w1))"

text \<open>
  \<^verbatim>\<open>@lru_cache(maxsize=500)\<close>: a hit returns the stored value and makes the entry the most
  recent one; a miss runs the body, stores what it returns in front and drops the least
  recent entry beyond the capacity. A call that raises stores nothing.
\<close>

definition search_movie :: "env \<Rightarrow> string \<Rightarrow> world \<Rightarrow> (exn + jvalue) \<times> world" where
  "search_movie E title w =
     (case map_of (search_movie_cache w) title of
        Some v \<Rightarrow>
          (Inr v,
           w\<lparr>search_movie_cache :=
               (title, v) # filter (\<lambda>kv. fst kv \<noteq> title) (search_movie_cache w)\<rparr>)
      | None \<Rightarrow>
          (case search_movie_body E title w of
             (Inl e, w1) \<Rightarrow> (Inl e, w1)
           | (Inr v, w1) \<Rightarrow>
               (Inr v,
                w1\<lparr>search_movie_cache :=
                     take maxsize ((title, v) # search_movie_cache w1)\<rparr>)))"

text \<open>The world after a series of lookups whose results and exceptions the caller drops.\<close>

definition search_all :: "env \<Rightarrow> string list \<Rightarrow> world \<Rightarrow> world" where
  "search_all E titles w = foldl (\<lambda>w' t. snd (search_movie E t w')) w titles"


section \<open>api\_client.py: mapping MovieLens movies to TMDB ids\<close>

record movie_row =
  movieId :: int
  title :: string
  genres :: string

definition cache_file :: string where
  "cache_file = ''data/processed/movieId_tmdbId_map.json''"

definition cache_dir :: string where
  "cache_dir = ''data/processed''"

text \<open>
  The function returns what \<^verbatim>\<open>json.load\<close> gave, or the dictionary it built, whose keys are
  the integer movie ids (the items in insertion order).
\<close>

datatype mapping_result = Loaded jvalue | Built "(int \<times> jvalue) list"

definition sum_bind :: "'e + 'a \<Rightarrow> ('a \<Rightarrow> 'e + 'b) \<Rightarrow> 'e + 'b" where
  "sum_bind x f = (case x of Inl e \<Rightarrow> Inl e | Inr a \<Rightarrow> f a)"

text \<open>The \<^verbatim>\<open>for _, row in movies_df.iterrows()\<close> loop, over the rows left.\<close>

fun mapping_loop ::
  "env \<Rightarrow> movie_row list \<Rightarrow> (int \<times> jvalue) list \<Rightarrow> world
   \<Rightarrow> (exn + (int \<times> jvalue) list) \<times> world" where
  "mapping_loop E [] mapping w = (Inr mapping, w)"
| "mapping_loop E (row # rows) mapping w =
     (case sum_bind (py_split (title row) '' ('') item_0 of
        Inl e \<Rightarrow> (Inl e, w)
      | Inr t \<Rightarrow>
          (let movie_id = movieId row
           in case search_movie E t w of
                (Inl e, w1) \<Rightarrow> (Inl e, w1)
              | (Inr results, w1) \<Rightarrow>
                  (case (if truthy results
                         then sum_bind (sum_bind (subscript_0 results) subscript_id)
                                (\<lambda>v. Inr (AList.update movie_id v mapping))
                         else Inr mapping) of
                     Inl e \<Rightarrow> (Inl e, w1)
                   | Inr mapping' \<Rightarrow>
                       (case time_sleep E (1 / 4) w1 of
                          Inl e \<Rightarrow> (Inl e, w1)
                        | Inr w2 \<Rightarrow> mapping_loop E rows mapping' w2))))"

definition map_movielens_to_tmdb ::
  "env \<Rightarrow> movie_row list \<Rightarrow> world \<Rightarrow> (exn + mapping_result) \<times> world" where
  "map_movielens_to_tmdb E movies_df w =
     (if os_path_exists w cache_file then
        (case open_read w cache_file of
           Inl e \<Rightarrow> (Inl e, w)
         | Inr c \<Rightarrow>
             (case json_load E c of
                Inl e \<Rightarrow> (Inl e, w)
              | Inr v \<Rightarrow> (Inr (Loaded v), w)))
      else
        (case mapping_loop E movies_df [] w of
           (Inl e, w1) \<Rightarrow> (Inl e, w1)
         | (Inr mapping, w1) \<Rightarrow>
             (case open_write w1 cache_dir cache_file (json_dump E mapping) of
                Inl e \<Rightarrow> (Inl e, w1)
              | Inr w2 \<Rightarrow> (Inr (Built mapping), w2))))"


section \<open>Notions used in the statements\<close>

text \<open>
  The query parameters that \<open>handle_request\<close> sends: the caller's entries (none when
  \<open>params\<close> is None) with the API key; the reference of the dictionary that holds them;
  and the world in which the loop starts.
\<close>

definition sent_params :: "env \<Rightarrow> nat option \<Rightarrow> world \<Rightarrow> (string \<rightharpoonup> string)" where
  "sent_params E params w =
     (case params of None \<Rightarrow> Map.empty | Some r \<Rightarrow> heap w r)(''api_key'' \<mapsto> TMDB_API_KEY E)"

definition param_ref :: "nat option \<Rightarrow> world \<Rightarrow> nat" where
  "param_ref params w = (case params of None \<Rightarrow> next_ref w | Some r \<Rightarrow> r)"

definition prepared :: "env \<Rightarrow> nat option \<Rightarrow> world \<Rightarrow> world" where
  "prepared E params w =
     (case params of
        None \<Rightarrow> w\<lparr>next_ref := Suc (next_ref w),
                  heap := (heap w)(next_ref w := [''api_key'' \<mapsto> TMDB_API_KEY E])\<rparr>
      | Some r \<Rightarrow> w\<lparr>heap := (heap w)(r := (heap w r)(''api_key'' \<mapsto> TMDB_API_KEY E))\<rparr>)"

text \<open>The table that the movie filter of \<open>clean_data\<close> leaves (its first two lines).\<close>

definition movie_filtered :: "rating_row list \<Rightarrow> int \<Rightarrow> rating_row list" where
  "movie_filtered ratings min_ratings =
     select_rows ratings
       (isin (map rating_row.movieId ratings)
          (index_at_least (value_counts (map rating_row.movieId ratings)) min_ratings))"





text \<open>A fresh process, canned responses, and a network that ignores the request.\<close>

definition world0 :: world where
  "world0 = \<lparr>calls = 0, trace = [], heap = (\<lambda>r. Map.empty), next_ref = 0,
             search_movie_cache = [], fs = Map.empty\<rparr>"

definition reply :: "int \<Rightarrow> string option \<Rightarrow> exn + jvalue \<Rightarrow> outcome" where
  "reply code hdr body =
     Responds \<lparr>status_code = code, Retry_After = hdr, url = [], response_text = [],
               json = body\<rparr>"

definition mock_env :: "(nat \<Rightarrow> outcome) \<Rightarrow> env" where
  "mock_env f =
     \<lparr>TMDB_API_KEY = ''k'', transport = (\<lambda>n u p. f n),
      platform_accepts = (\<lambda>secs. secs \<le> 9000000000),
      json_load = (\<lambda>s. Inl ValueError), json_dump = (\<lambda>m. [])\<rparr>"




definition world1 :: world where
  "world1 = world0\<lparr>heap := (\<lambda>r. if r = 0 then [''query'' \<mapsto> ''Heat''] else Map.empty),
                    next_ref := 1\<rparr>"

text \<open>
  The entry \<open>(t, v)\<close> is in the cache of \<open>search_movie\<close>, behind entries with distinct
  keys from \<open>S\<close>.
\<close>

definition kept :: "string \<Rightarrow> jvalue \<Rightarrow> string set \<Rightarrow> world \<Rightarrow> bool" where
  "kept t v S w =
     (\<exists>pre post. search_movie_cache w = pre @ (t, v) # post \<and> distinct (map fst pre) \<and>
                 fst ` set pre \<subseteq> S \<and> t \<notin> fst ` set pre)"

text \<open>
  A network that answers every search for a title \<open>t\<close> with status 200 and the
  candidates \<open>cands t\<close>; a cache whose entries agree with \<open>cands\<close>.
\<close>

definition answers :: "env \<Rightarrow> (string \<Rightarrow> jvalue list) \<Rightarrow> bool" where
  "answers E cands =
     (\<forall>n u p t. p ''query'' = Some t \<longrightarrow>
        (\<exists>resp. transport E n u p = Responds resp \<and> status_code resp = 200 \<and>
                json resp = Inr (JDict [(''results'', JList (cands t))])))"

definition consistent :: "(string \<Rightarrow> jvalue list) \<Rightarrow> world \<Rightarrow> bool" where
  "consistent cands w = (\<forall>(t, v) \<in> set (search_movie_cache w). v = JList (cands t))"

text \<open>A network that finds no candidate for any title, and 500 titles \<open>x\<close>, \<open>xx\<close>, ...\<close>

definition always_ok :: env where
  "always_ok = mock_env (\<lambda>n. reply 200 None (Inr (JDict [(''results'', JList [])])))"

definition other_titles :: "string list" where
  "other_titles = map (\<lambda>i. replicate i (CHR ''x'')) [1..<501]"

text \<open>
  A mapping file that holds an empty JSON object, a JSON library that reads it, and a
  movies table.
\<close>

definition file_env :: env where
  "file_env =
     (mock_env (\<lambda>n. Raises RequestException))
       \<lparr>json_load := (\<lambda>s. if s = ''{}'' then Inr (JDict []) else Inl ValueError)\<rparr>"

definition world_cached :: world where
  "world_cached = world0\<lparr>fs := [cache_dir \<mapsto> Directory, cache_file \<mapsto> File ''{}'']\<rparr>"

definition toy_movies :: "movie_row list" where
  "toy_movies =
     [\<lparr>movieId = 1, title = ''Toy Story (1995)'', genres = ''Animation''\<rparr>,
      \<lparr>movieId = 2, title = ''Zzyzx Road (2006)'', genres = ''Thriller''\<rparr>]"

text \<open>
  The title that is looked up, in the words of the specification: the row's title cut at
  the first occurrence of the separator. The external id of a candidate: what its record
  holds under \<^verbatim>\<open>id\<close>. The entry that the specification gives a row when the search for a
  title \<open>t\<close> finds the candidates \<open>cands t\<close>: the external id of the first candidate,
  none when there is no candidate. \<open>add_entry\<close> puts it into a mapping.
\<close>

fun before_first :: "string \<Rightarrow> string \<Rightarrow> string" where
  "before_first sep [] = []"
| "before_first sep (c # cs) = (if prefix sep (c # cs) then [] else c # before_first sep cs)"

definition external_id :: "jvalue \<Rightarrow> jvalue option" where
  "external_id c = (case c of JDict kvs \<Rightarrow> map_of kvs ''id'' | _ \<Rightarrow> None)"

definition spec_entry :: "(string \<Rightarrow> jvalue list) \<Rightarrow> movie_row \<Rightarrow> jvalue option" where
  "spec_entry cands row =
     (case cands (before_first '' ('' (title row)) of
        [] \<Rightarrow> None
      | c # cs \<Rightarrow> external_id c)"

definition add_entry :: "(string \<Rightarrow> jvalue list) \<Rightarrow> (int \<times> jvalue) list \<Rightarrow> movie_row
                         \<Rightarrow> (int \<times> jvalue) list" where
  "add_entry cands m row =
     (case spec_entry cands row of None \<Rightarrow> m | Some i \<Rightarrow> AList.update (movieId row) i m)"

text \<open>
  A network that knows one film, and a fresh process whose directory for processed data
  exists.
\<close>

definition toy_story :: jvalue where
  "toy_story = JDict [(''id'', JInt 862), (''title'', JStr ''Toy Story'')]"

definition toy_cands :: "string \<Rightarrow> jvalue list" where
  "toy_cands t = (if t = ''Toy Story'' then [toy_story] else [])"

definition toy_env :: env where
  "toy_env =
     \<lparr>TMDB_API_KEY = ''k'',
      transport = (\<lambda>n u p.
        reply 200 None
          (Inr (JDict [(''results'',
                        JList (case p ''query'' of None \<Rightarrow> [] | Some t \<Rightarrow> toy_cands t))]))),
      platform_accepts = (\<lambda>secs. secs \<le> 9000000000),
      json_load = (\<lambda>s. Inl ValueError), json_dump = (\<lambda>m. [])\<rparr>"

definition toy_world :: world where
  "toy_world = world0\<lparr>fs := [cache_dir \<mapsto> Directory]\<rparr>"

text \<open>A movies table in which two rows have the movie id 1.\<close>

definition dup_movies :: "movie_row list" where
  "dup_movies =
     [\<lparr>movieId = 1, title = ''Toy Story (1995)'', genres = ''Animation''\<rparr>,
      \<lparr>movieId = 1, title = ''Zzyzx Road (2006)'', genres = ''Thriller''\<rparr>]"


section \<open>Properties of clean\_data\<close>

lemma select_rows_isin:
  "select_rows rows (isin (map f rows) vals) = filter (\<lambda>r. f r \<in> set vals) rows"
  unfolding select_rows_def isin_def
  by (induction rows) auto

lemma set_index_at_least:
  "set (index_at_least (value_counts col) n) = {v \<in> set col. n \<le> int (count_list col v)}"
  unfolding index_at_least_def value_counts_def
  by (auto simp: image_iff)

lemma keep_frequent:
  "select_rows rows (isin (map f rows) (index_at_least (value_counts (map f rows)) n)) =
     filter (\<lambda>r. n \<le> int (count_list (map f rows) (f r))) rows"
  unfolding select_rows_isin set_index_at_least
  by (rule filter_cong) auto

text \<open>The two stages of \<open>clean_data\<close> as filters: movies first, then users.\<close>

lemma clean_data_filter:
  "clean_data ratings min_ratings min_users =
     filter (\<lambda>r. min_users \<le> int (count_list (map userId
                  (filter (\<lambda>r. min_ratings \<le> int (count_list (map rating_row.movieId ratings)
                                                  (rating_row.movieId r))) ratings))
                  (userId r)))
       (filter (\<lambda>r. min_ratings \<le> int (count_list (map rating_row.movieId ratings)
                                       (rating_row.movieId r))) ratings)"
  unfolding clean_data_def Let_def keep_frequent ..

lemma count_list_map_filter:
  "count_list (map f (filter (\<lambda>r. P (f r)) xs)) v =
     (if P v then count_list (map f xs) v else 0)"
  by (induction xs) auto

text \<open>
  C1, as stated, fails: in \<open>sparse_table\<close> every movie has 10 ratings, so the movie filter
  keeps all rows; the user filter then keeps the 10 rows of user 1 only, and movie 1 is
  left with a single rating among the returned rows.
\<close>

theorem clean_data_movie_count_counterexample:
  "1 \<in> set (map rating_row.movieId (clean_data sparse_table 10 10)) \<and>
   count_list (map rating_row.movieId (clean_data sparse_table 10 10)) 1 = 1"
  by code_simp

text \<open>
  C1, amended: \<open>clean_data\<close> applies the user filter to the table that the movie filter
  leaves. Every user id in the rows it returns occurs in at least \<open>min_users\<close> of the
  returned rows; every movie id in the returned rows occurs in at least \<open>min_ratings\<close>
  rows of the input table and of the table that the movie filter leaves (the user filter
  runs afterwards and may take ratings of a kept movie away).
\<close>

theorem clean_data_counts:
  "clean_data ratings min_ratings min_users =
     select_rows (movie_filtered ratings min_ratings)
       (isin (map userId (movie_filtered ratings min_ratings))
          (index_at_least (value_counts (map userId (movie_filtered ratings min_ratings)))
             min_users)) \<and>
   (\<forall>r \<in> set (clean_data ratings min_ratings min_users).
      min_users \<le> int (count_list (map userId (clean_data ratings min_ratings min_users))
                         (userId r)) \<and>
      min_ratings \<le> int (count_list (map rating_row.movieId ratings) (rating_row.movieId r)) \<and>
      min_ratings \<le> int (count_list (map rating_row.movieId (movie_filtered ratings min_ratings))
                           (rating_row.movieId r)))"
proof (intro conjI ballI)
  show "clean_data ratings min_ratings min_users =
     select_rows (movie_filtered ratings min_ratings)
       (isin (map userId (movie_filtered ratings min_ratings))
          (index_at_least (value_counts (map userId (movie_filtered ratings min_ratings)))
             min_users))"
    unfolding clean_data_def movie_filtered_def Let_def ..
next
  fix r
  define popular where
    "popular = (\<lambda>m. min_ratings \<le> int (count_list (map rating_row.movieId ratings) m))"
  define ratings1 where
    "ratings1 = filter (\<lambda>r. popular (rating_row.movieId r)) ratings"
  define enough where
    "enough = (\<lambda>u. min_users \<le> int (count_list (map userId ratings1) u))"
  have stage1: "movie_filtered ratings min_ratings = ratings1"
    unfolding movie_filtered_def keep_frequent ratings1_def popular_def ..
  have result:
    "clean_data ratings min_ratings min_users = filter (\<lambda>r. enough (userId r)) ratings1"
    unfolding clean_data_filter ratings1_def enough_def popular_def ..
  assume "r \<in> set (clean_data ratings min_ratings min_users)"
  then have r1: "r \<in> set ratings1" and en: "enough (userId r)"
    unfolding result by simp_all
  from r1 have pop: "popular (rating_row.movieId r)"
    unfolding ratings1_def by simp
  have "count_list (map userId (clean_data ratings min_ratings min_users)) (userId r) =
        count_list (map userId ratings1) (userId r)"
    unfolding result using en by (simp add: count_list_map_filter)
  with en show
    "min_users \<le> int (count_list (map userId (clean_data ratings min_ratings min_users))
                        (userId r))"
    unfolding enough_def by simp
  from pop show
    "min_ratings \<le> int (count_list (map rating_row.movieId ratings) (rating_row.movieId r))"
    unfolding popular_def .
  have "count_list (map rating_row.movieId ratings1) (rating_row.movieId r) =
        count_list (map rating_row.movieId ratings) (rating_row.movieId r)"
    unfolding ratings1_def using pop by (simp add: count_list_map_filter)
  with pop show
    "min_ratings \<le> int (count_list (map rating_row.movieId (movie_filtered ratings min_ratings))
                          (rating_row.movieId r))"
    unfolding stage1 popular_def by simp
qed

theorem clean_data_counts_witness:
  "rated 1 5 \<in> set (clean_data sparse_table 10 10) \<and>
   10 \<le> int (count_list (map userId (clean_data sparse_table 10 10)) 1) \<and>
   10 \<le> int (count_list (map rating_row.movieId sparse_table) 5) \<and>
   10 \<le> int (count_list (map rating_row.movieId (movie_filtered sparse_table 10)) 5)"
proof -
  have mem: "rated 1 5 \<in> set (clean_data sparse_table 10 10)"
    by code_simp
  from clean_data_counts [THEN conjunct2, rule_format, OF mem] mem show ?thesis
    by (simp add: rated_def)
qed

text \<open>
  C9: the rows returned by \<open>clean_data\<close> are rows of the input, unchanged and in their
  order: the result is obtained from the input by deleting rows.
\<close>

theorem clean_data_subseq:
  "subseq (clean_data ratings min_ratings min_users) ratings"
  unfolding clean_data_filter
  by (meson subseq_filter_left subseq_order.trans)


section \<open>Properties of \_handle\_request\<close>

lemma handle_request_attempts:
  "handle_request E endpoint params w =
     attempts E (BASE_URL @ endpoint) (param_ref params w) RETRIES (prepared E params w)"
  by (cases params) (simp_all add: handle_request_def param_ref_def prepared_def)

lemma prepared_simps [simp]:
  "calls (prepared E params w) = calls w"
  "trace (prepared E params w) = trace w"
  "heap (prepared E params w) (param_ref params w) = sent_params E params w"
  "search_movie_cache (prepared E params w) = search_movie_cache w"
  "fs (prepared E params w) = fs w"
  by (cases params; simp add: prepared_def param_ref_def sent_params_def)+

lemma try_body_frame:
  "try_body E u r w = (c, w') \<Longrightarrow>
     heap w' = heap w \<and> next_ref w' = next_ref w \<and>
     search_movie_cache w' = search_movie_cache w \<and> fs w' = fs w \<and>
     calls w' = Suc (calls w)"
  by (auto simp: try_body_def requests_get_def logger_def time_sleep_def Let_def
           split: outcome.splits sum.splits if_splits option.splits)

lemma attempts_frame:
  "attempts E u r n w = (res, w') \<Longrightarrow>
     heap w' = heap w \<and> next_ref w' = next_ref w \<and>
     search_movie_cache w' = search_movie_cache w \<and> fs w' = fs w \<and>
     calls w' \<le> calls w + n"
proof (induction n arbitrary: w)
  case 0
  then show ?case by (auto simp: logger_def)
next
  case (Suc n)
  obtain c w1 where tb: "try_body E u r w = (c, w1)" by (cases "try_body E u r w")
  note fr = try_body_frame [OF tb]
  show ?case
  proof (cases c)
    case (Return v)
    with Suc.prems tb fr show ?thesis by auto
  next
    case Continue
    with Suc.prems tb have "attempts E u r n w1 = (res, w')" by simp
    from Suc.IH [OF this] fr show ?thesis by simp
  next
    case (Raise e)
    show ?thesis
    proof (cases "e = RequestException")
      case False
      with Raise Suc.prems tb fr show ?thesis by auto
    next
      case True
      let ?w3 = "(logger WARNING (Request_exception e) w1)\<lparr>trace := trace (logger WARNING (Request_exception e) w1) @ [Sleep 1]\<rparr>"
      from True Raise Suc.prems tb have "attempts E u r n ?w3 = (res, w')"
        by (simp add: time_sleep_def WAIT_TIME_def Let_def)
      from Suc.IH [OF this] fr show ?thesis by (simp add: logger_def)
    qed
  qed
qed




lemma attempts_200:
  "transport E (calls w) u (heap w r) = Responds resp \<Longrightarrow> status_code resp = 200 \<Longrightarrow>
   json resp = Inr v \<Longrightarrow>
   attempts E u r (Suc n) w =
     (Inr v, w\<lparr>calls := Suc (calls w),
        trace := trace w @ [Request u, Log DEBUG (Request_URL (url resp))]\<rparr>)"
  by (simp add: try_body_def requests_get_def logger_def time_sleep_def Let_def)

lemma attempts_200_undecodable:
  "transport E (calls w) u (heap w r) = Responds resp \<Longrightarrow> status_code resp = 200 \<Longrightarrow>
   json resp = Inl RequestException \<Longrightarrow>
   attempts E u r (Suc n) w =
     attempts E u r n (w\<lparr>calls := Suc (calls w),
        trace := trace w @ [Request u, Log DEBUG (Request_URL (url resp)),
                            Log WARNING (Request_exception RequestException),
                            Sleep (of_int WAIT_TIME)]\<rparr>)"
  by (simp add: try_body_def requests_get_def logger_def time_sleep_def WAIT_TIME_def Let_def)

lemma attempts_other:
  "transport E (calls w) u (heap w r) = Responds resp \<Longrightarrow> status_code resp \<noteq> 200 \<Longrightarrow>
   status_code resp \<noteq> 429 \<Longrightarrow>
   attempts E u r (Suc n) w =
     (Inr JNone, w\<lparr>calls := Suc (calls w),
        trace := trace w @ [Request u, Log DEBUG (Request_URL (url resp)),
                  Log ERROR (TMDB_API_error (status_code resp) (response_text resp))]\<rparr>)"
  by (simp add: try_body_def requests_get_def logger_def time_sleep_def Let_def)





text \<open>
  C5: when the first attempt answers with a status other than 200 and 429,
  \<open>handle_request\<close> logs the error and returns None after that one request; when it
  answers 200 with a body that decodes, the decoded body is returned after that one
  request.
\<close>

theorem terminal_statuses:
  fixes E endpoint params w
  defines "u \<equiv> BASE_URL @ endpoint"
  defines "out \<equiv> transport E (calls w) (BASE_URL @ endpoint) (sent_params E params w)"
  defines "res \<equiv> handle_request E endpoint params w"
  shows "(\<forall>resp. out = Responds resp \<and> status_code resp \<noteq> 200 \<and> status_code resp \<noteq> 429 \<longrightarrow>
            fst res = Inr JNone \<and> calls (snd res) = calls w + 1 \<and>
            trace (snd res) = trace w @ [Request u, Log DEBUG (Request_URL (url resp)),
              Log ERROR (TMDB_API_error (status_code resp) (response_text resp))]) \<and>
         (\<forall>resp v. out = Responds resp \<and> status_code resp = 200 \<and> json resp = Inr v \<longrightarrow>
            fst res = Inr v \<and> calls (snd res) = calls w + 1 \<and>
            trace (snd res) = trace w @ [Request u, Log DEBUG (Request_URL (url resp))])"
proof (intro conjI allI impI)
  fix resp
  assume a: "out = Responds resp \<and> status_code resp \<noteq> 200 \<and> status_code resp \<noteq> 429"
  then have "transport E (calls (prepared E params w)) u
               (heap (prepared E params w) (param_ref params w)) = Responds resp"
    by (simp add: out_def u_def)
  from attempts_other [OF this, of 2] a
  have r: "res = (Inr JNone, (prepared E params w)\<lparr>calls := Suc (calls w),
        trace := trace w @ [Request u, Log DEBUG (Request_URL (url resp)),
                  Log ERROR (TMDB_API_error (status_code resp) (response_text resp))]\<rparr>)"
    by (simp add: res_def handle_request_attempts RETRIES_def u_def numeral_3_eq_3)
  show "fst res = Inr JNone" "calls (snd res) = calls w + 1"
    "trace (snd res) = trace w @ [Request u, Log DEBUG (Request_URL (url resp)),
              Log ERROR (TMDB_API_error (status_code resp) (response_text resp))]"
    unfolding r by simp_all
next
  fix resp v
  assume a: "out = Responds resp \<and> status_code resp = 200 \<and> json resp = Inr v"
  then have "transport E (calls (prepared E params w)) u
               (heap (prepared E params w) (param_ref params w)) = Responds resp"
    by (simp add: out_def u_def)
  from attempts_200 [OF this, of v 2] a
  have r: "res = (Inr v, (prepared E params w)\<lparr>calls := Suc (calls w),
        trace := trace w @ [Request u, Log DEBUG (Request_URL (url resp))]\<rparr>)"
    by (simp add: res_def handle_request_attempts RETRIES_def u_def numeral_3_eq_3)
  show "fst res = Inr v" "calls (snd res) = calls w + 1"
    "trace (snd res) = trace w @ [Request u, Log DEBUG (Request_URL (url resp))]"
    unfolding r by simp_all
qed



theorem terminal_statuses_witness:
  "fst (handle_request (mock_env (\<lambda>n. reply 404 None (Inl ValueError))) ''/movie/0'' None world0)
     = Inr JNone \<and>
   calls (snd (handle_request (mock_env (\<lambda>n. reply 404 None (Inl ValueError))) ''/movie/0'' None
                 world0)) = 1 \<and>
   fst (handle_request (mock_env (\<lambda>n. reply 200 None (Inr (JDict [(''id'', JInt 603)]))))
          ''/movie/603'' None world0) = Inr (JDict [(''id'', JInt 603)]) \<and>
   calls (snd (handle_request (mock_env (\<lambda>n. reply 200 None (Inr (JDict [(''id'', JInt 603)]))))
          ''/movie/603'' None world0)) = 1"
  using terminal_statuses
          [where E = "mock_env (\<lambda>n. reply 404 None (Inl ValueError))" and w = world0
             and endpoint = "''/movie/0''" and params = None]
        terminal_statuses
          [where E = "mock_env (\<lambda>n. reply 200 None (Inr (JDict [(''id'', JInt 603)])))"
             and w = world0 and endpoint = "''/movie/603''" and params = None]
  by (simp add: mock_env_def world0_def reply_def)









lemma py_int_date: "py_int ''Wed, 21 Oct 2015 07:28:00 GMT'' = Inl ValueError"
  by code_simp






lemma handle_request_heap:
  "heap (snd (handle_request E endpoint params w)) = heap (prepared E params w)"
  using attempts_frame [OF surjective_pairing, of E "BASE_URL @ endpoint" "param_ref params w"
                          RETRIES "prepared E params w"]
  unfolding handle_request_attempts by simp

text \<open>
  C10: a call with the reference of a dictionary leaves that dictionary with the entry
  \<open>api_key\<close> set to the API key and its other entries as they were, so it differs from
  what the caller passed whenever it had no such entry; no other dictionary changes.
\<close>

theorem handle_request_mutates_params:
  fixes E endpoint r w
  defines "w' \<equiv> snd (handle_request E endpoint (Some r) w)"
  shows "heap w' r ''api_key'' = Some (TMDB_API_KEY E) \<and>
         (\<forall>k. k \<noteq> ''api_key'' \<longrightarrow> heap w' r k = heap w r k) \<and>
         (''api_key'' \<notin> dom (heap w r) \<longrightarrow> heap w' r \<noteq> heap w r) \<and>
         (\<forall>r'. r' \<noteq> r \<longrightarrow> heap w' r' = heap w r')"
proof -
  have h: "heap w' = (heap w)(r := (heap w r)(''api_key'' \<mapsto> TMDB_API_KEY E))"
    unfolding w'_def handle_request_heap by (simp add: prepared_def)
  have "heap w' r \<noteq> heap w r" if "''api_key'' \<notin> dom (heap w r)"
  proof
    assume "heap w' r = heap w r"
    then have "heap w' r ''api_key'' = heap w r ''api_key''" by simp
    with that show False unfolding h by (simp add: domIff)
  qed
  then show ?thesis unfolding h by simp
qed

theorem handle_request_mutates_params_witness:
  "heap (snd (handle_request (mock_env (\<lambda>n. Raises RequestException)) ''/search/movie''
                (Some 0) world1)) 0 ''api_key'' = Some ''k'' \<and>
   heap (snd (handle_request (mock_env (\<lambda>n. Raises RequestException)) ''/search/movie''
                (Some 0) world1)) 0 ''query'' = Some ''Heat'' \<and>
   heap (snd (handle_request (mock_env (\<lambda>n. Raises RequestException)) ''/search/movie''
                (Some 0) world1)) 0 \<noteq> heap world1 0 \<and>
   heap (snd (handle_request (mock_env (\<lambda>n. Raises RequestException)) ''/search/movie''
                (Some 0) world1)) 1 = heap world1 1"
  using handle_request_mutates_params
          [where E = "mock_env (\<lambda>n. Raises RequestException)" and w = world1
             and endpoint = "''/search/movie''" and r = 0]
  by (simp add: mock_env_def world1_def world0_def domIff)


text \<open>
  C2: \<open>handle_request\<close> is meant to answer every failure with None, and does so for
  transport errors, for statuses other than 200 and 429, and when the retries are
  exhausted. Its 429 branch converts the Retry-After header with \<^verbatim>\<open>int\<close> inside the
  \<^verbatim>\<open>try\<close>, whose \<^verbatim>\<open>except\<close> clause catches RequestException only: for a header that holds
  an HTTP date, the other form that the HTTP standard gives it, the ValueError of
  \<^verbatim>\<open>int\<close> leaves the function on the first attempt.
\<close>

theorem handle_request_http_date_raises:
  "fst (handle_request
          (mock_env (\<lambda>n. reply 429 (Some ''Wed, 21 Oct 2015 07:28:00 GMT'') (Inl ValueError)))
          ''/search/movie'' None world0) = Inl ValueError \<and>
   calls (snd (handle_request
          (mock_env (\<lambda>n. reply 429 (Some ''Wed, 21 Oct 2015 07:28:00 GMT'') (Inl ValueError)))
          ''/search/movie'' None world0)) = 1"
  by (simp add: world0_def handle_request_attempts RETRIES_def numeral_3_eq_3 try_body_def
        requests_get_def mock_env_def reply_def retry_after_def py_int_date logger_def Let_def)


section \<open>Properties of search\_movie and map\_movielens\_to\_tmdb\<close>

text \<open>
  C6: when the mapping file exists, \<open>map_movielens_to_tmdb\<close> returns what
  \<^verbatim>\<open>json.load\<close> makes of its contents (the decoded value, or the decoder's exception),
  whatever the input rows are, and leaves the world as it was: no request is issued,
  nothing is slept, logged or written.
\<close>

theorem cached_mapping_returned:
  assumes "fs w cache_file = Some (File c)"
  shows "map_movielens_to_tmdb E movies_df w =
           (case json_load E c of Inl e \<Rightarrow> Inl e | Inr v \<Rightarrow> Inr (Loaded v), w)"
  using assms
  by (simp add: map_movielens_to_tmdb_def os_path_exists_def open_read_def split: sum.splits)

lemma handle_request_frame:
  "handle_request E endpoint params w = (res, w') \<Longrightarrow>
     search_movie_cache w' = search_movie_cache w \<and> fs w' = fs w"
  using attempts_frame [of E "BASE_URL @ endpoint" "param_ref params w" RETRIES
                           "prepared E params w" res w']
  unfolding handle_request_attempts by simp

lemma search_movie_body_frame:
  assumes "search_movie_body E t w = (res, w')"
  shows "search_movie_cache w' = search_movie_cache w \<and> fs w' = fs w"
proof -
  let ?w0 = "w\<lparr>heap := (heap w)(next_ref w := [''query'' \<mapsto> t]), next_ref := Suc (next_ref w)\<rparr>"
  obtain r w1 where hr: "handle_request E ''/search/movie'' (Some (next_ref w)) ?w0 = (r, w1)"
    by (cases "handle_request E ''/search/movie'' (Some (next_ref w)) ?w0")
  from assms hr have "w' = w1"
    by (auto simp: search_movie_body_def Let_def split: sum.splits)
  with handle_request_frame [OF hr] show ?thesis by simp
qed

lemma search_movie_hit:
  "map_of (search_movie_cache w) t = Some v \<Longrightarrow>
   search_movie E t w =
     (Inr v, w\<lparr>search_movie_cache :=
                 (t, v) # filter (\<lambda>kv. fst kv \<noteq> t) (search_movie_cache w)\<rparr>)"
  by (simp add: search_movie_def)

lemma search_movie_miss:
  assumes "map_of (search_movie_cache w) t = None"
  shows "search_movie_cache (snd (search_movie E t w)) =
           (case fst (search_movie E t w) of
              Inl e \<Rightarrow> search_movie_cache w
            | Inr v \<Rightarrow> take maxsize ((t, v) # search_movie_cache w))"
proof -
  obtain res w1 where b: "search_movie_body E t w = (res, w1)"
    by (cases "search_movie_body E t w")
  from search_movie_body_frame [OF b] assms b show ?thesis
    by (cases res) (simp_all add: search_movie_def)
qed

lemma kept_lookup:
  assumes "kept t v S w"
  shows "map_of (search_movie_cache w) t = Some v"
proof -
  from assms obtain pre post where c: "search_movie_cache w = pre @ (t, v) # post"
    and n: "t \<notin> fst ` set pre"
    unfolding kept_def by blast
  from n have "map_of pre t = None" by (simp add: map_of_eq_None_iff)
  then show ?thesis unfolding c by (simp add: map_add_def)
qed

lemma kept_mono: "kept t v S w \<Longrightarrow> S \<subseteq> S' \<Longrightarrow> kept t v S' w"
  unfolding kept_def by blast

lemma kept_step:
  assumes k: "kept t v S w" and fin: "finite S" and t': "t' \<noteq> t"
    and room: "card (insert t' S) < maxsize"
  shows "kept t v (insert t' S) (snd (search_movie E t' w))"
proof -
  from k obtain pre post where c: "search_movie_cache w = pre @ (t, v) # post"
    and d: "distinct (map fst pre)" and s: "fst ` set pre \<subseteq> S" and n: "t \<notin> fst ` set pre"
    unfolding kept_def by blast
  show ?thesis
  proof (cases "map_of (search_movie_cache w) t'")
    case (Some v')
    let ?f = "filter (\<lambda>kv. fst kv \<noteq> t')"
    have "search_movie_cache (snd (search_movie E t' w)) = ((t', v') # ?f pre) @ (t, v) # ?f post"
      unfolding search_movie_hit [OF Some] using c t' by simp
    moreover have "distinct (map fst ((t', v') # ?f pre))"
      using d by (auto simp: distinct_map_filter)
    moreover have "fst ` set ((t', v') # ?f pre) \<subseteq> insert t' S" using s by auto
    moreover have "t \<notin> fst ` set ((t', v') # ?f pre)" using n t' by auto
    ultimately show ?thesis unfolding kept_def by blast
  next
    case None
    show ?thesis
    proof (cases "fst (search_movie E t' w)")
      case (Inl e)
      with search_movie_miss [OF None, of E] have
        "search_movie_cache (snd (search_movie E t' w)) = search_movie_cache w" by simp
      with c d s n have "search_movie_cache (snd (search_movie E t' w)) = pre @ (t, v) # post"
        "distinct (map fst pre)" "fst ` set pre \<subseteq> insert t' S" "t \<notin> fst ` set pre"
        by auto
      then show ?thesis unfolding kept_def by blast
    next
      case (Inr v')
      from None c have new: "t' \<notin> fst ` set pre"
        by (auto simp: map_of_eq_None_iff)
      have dn: "distinct (map fst ((t', v') # pre))" using d new by simp
      have "length ((t', v') # pre) = card (set (map fst ((t', v') # pre)))"
        using distinct_card [OF dn] by simp
      also have "\<dots> \<le> card (insert t' S)"
        using s fin by (intro card_mono) auto
      finally have "length ((t', v') # pre) \<le> card (insert t' S)" .
      with room have len: "length ((t', v') # pre) < maxsize" by simp
      have "search_movie_cache (snd (search_movie E t' w)) =
              take maxsize ((t', v') # search_movie_cache w)"
        using search_movie_miss [OF None, of E] Inr by simp
      also have "\<dots> = ((t', v') # pre) @ take (maxsize - length ((t', v') # pre)) ((t, v) # post)"
        unfolding c using len by (simp add: take_Cons')
      also have "\<dots> = ((t', v') # pre) @ (t, v) # take (maxsize - length ((t', v') # pre) - 1) post"
        using len by (simp add: take_Cons')
      finally have "search_movie_cache (snd (search_movie E t' w)) =
          ((t', v') # pre) @ (t, v) # take (maxsize - length ((t', v') # pre) - 1) post" .
      moreover have "distinct (map fst ((t', v') # pre))" using d new by simp
      moreover have "fst ` set ((t', v') # pre) \<subseteq> insert t' S" using s by auto
      moreover have "t \<notin> fst ` set ((t', v') # pre)" using n t' by auto
      ultimately show ?thesis unfolding kept_def by blast
    qed
  qed
qed

lemma kept_same:
  assumes k: "kept t v S w"
  shows "kept t v {} (snd (search_movie E t w))"
proof -
  have "search_movie_cache (snd (search_movie E t w)) =
          [] @ (t, v) # filter (\<lambda>kv. fst kv \<noteq> t) (search_movie_cache w)"
    unfolding search_movie_hit [OF kept_lookup [OF k]] by simp
  then show ?thesis unfolding kept_def
    by (intro exI [of _ "[]"] exI [of _ "filter (\<lambda>kv. fst kv \<noteq> t) (search_movie_cache w)"])
       simp
qed

lemma kept_search_all:
  "kept t v S w \<Longrightarrow> finite S \<Longrightarrow> card (S \<union> (set ts - {t})) < maxsize \<Longrightarrow>
   kept t v (S \<union> (set ts - {t})) (search_all E ts w)"
proof (induction ts arbitrary: S w)
  case Nil
  then show ?case by (simp add: search_all_def)
next
  case (Cons t' ts)
  have sa: "search_all E (t' # ts) w = search_all E ts (snd (search_movie E t' w))"
    by (simp add: search_all_def)
  show ?case
  proof (cases "t' = t")
    case True
    from kept_mono [OF kept_same [OF Cons.prems(1), of E], of S] have
      "kept t v S (snd (search_movie E t w))" by simp
    from Cons.IH [OF this Cons.prems(2)] Cons.prems(3) True show ?thesis
      unfolding sa by simp
  next
    case False
    have eq: "S \<union> (set (t' # ts) - {t}) = insert t' S \<union> (set ts - {t})"
      using False by auto
    have "card (insert t' S) \<le> card (S \<union> (set (t' # ts) - {t}))"
      unfolding eq using Cons.prems(2) by (intro card_mono) auto
    with Cons.prems(3) have "card (insert t' S) < maxsize" by simp
    from kept_step [OF Cons.prems(1,2) False this]
    have "kept t v (insert t' S) (snd (search_movie E t' w))" .
    from Cons.IH [OF this] Cons.prems(2,3) show ?thesis
      unfolding sa eq by simp
  qed
qed

lemma search_movie_returned_front:
  assumes "search_movie E t w = (Inr v, w1)"
  shows "kept t v {} w1"
proof -
  have "\<exists>post. search_movie_cache w1 = [] @ (t, v) # post"
  proof (cases "map_of (search_movie_cache w) t")
    case (Some v')
    from assms show ?thesis unfolding search_movie_hit [OF Some] by auto
  next
    case None
    from search_movie_miss [OF None, of E] assms show ?thesis
      by (simp add: maxsize_def take_Cons')
  qed
  then obtain post where "search_movie_cache w1 = [] @ (t, v) # post" ..
  then show ?thesis unfolding kept_def
    by (intro exI [of _ "[]"] exI [of _ post]) simp
qed

text \<open>
  C8, amended: when a call of \<open>search_movie\<close> for a title has returned, and the lookups
  made since then involve fewer than \<open>maxsize\<close> distinct other titles, another call for
  the same title returns the same value without issuing a request.
\<close>

theorem search_movie_memoized:
  assumes first: "search_movie E t w = (Inr v, w1)"
    and few: "card (set others - {t}) < maxsize"
  shows "fst (search_movie E t (search_all E others w1)) = Inr v \<and>
         calls (snd (search_movie E t (search_all E others w1))) =
           calls (search_all E others w1) \<and>
         trace (snd (search_movie E t (search_all E others w1))) =
           trace (search_all E others w1)"
proof -
  from kept_search_all [OF search_movie_returned_front [OF first], of others E] few
  have "kept t v ({} \<union> (set others - {t})) (search_all E others w1)" by simp
  from search_movie_hit [OF kept_lookup [OF this], of E] show ?thesis by simp
qed


lemma search_movie_body_answers:
  assumes "answers E cands"
  shows "fst (search_movie_body E t w) = Inr (JList (cands t)) \<and>
         calls (snd (search_movie_body E t w)) = Suc (calls w)"
proof -
  let ?r = "next_ref w"
  let ?w0 = "w\<lparr>heap := (heap w)(?r := [''query'' \<mapsto> t]), next_ref := Suc ?r\<rparr>"
  let ?p = "prepared E (Some ?r) ?w0"
  have "sent_params E (Some ?r) ?w0 ''query'' = Some t"
    by (simp add: sent_params_def)
  with assms obtain resp where
    1: "transport E (calls ?p) (BASE_URL @ ''/search/movie'') (sent_params E (Some ?r) ?w0)
          = Responds resp"
    and 2: "status_code resp = 200"
    and 3: "json resp = Inr (JDict [(''results'', JList (cands t))])"
    unfolding answers_def by blast
  have "transport E (calls ?p) (BASE_URL @ ''/search/movie'') (heap ?p (param_ref (Some ?r) ?w0))
          = Responds resp"
    using 1 by simp
  from attempts_200 [OF this 2 3, of 2]
  have "handle_request E ''/search/movie'' (Some ?r) ?w0 =
          (Inr (JDict [(''results'', JList (cands t))]),
           ?p\<lparr>calls := Suc (calls ?p),
              trace := trace ?p @ [Request (BASE_URL @ ''/search/movie''),
                                   Log DEBUG (Request_URL (url resp))]\<rparr>)"
    unfolding handle_request_attempts by (simp add: RETRIES_def numeral_3_eq_3)
  then show ?thesis
    by (simp add: search_movie_body_def Let_def)
qed

lemma search_movie_answers_miss:
  assumes "answers E cands" "map_of (search_movie_cache w) t = None"
  shows "fst (search_movie E t w) = Inr (JList (cands t)) \<and>
         calls (snd (search_movie E t w)) = Suc (calls w) \<and>
         search_movie_cache (snd (search_movie E t w)) =
           take maxsize ((t, JList (cands t)) # search_movie_cache w)"
proof -
  obtain res w1 where b: "search_movie_body E t w = (res, w1)"
    by (cases "search_movie_body E t w")
  with search_movie_body_answers [OF assms(1), of t w]
  have r: "res = Inr (JList (cands t))" "calls w1 = Suc (calls w)" by simp_all
  from search_movie_body_frame [OF b] have "search_movie_cache w1 = search_movie_cache w"
    by simp
  with assms(2) b r show ?thesis by (simp add: search_movie_def)
qed

lemma take_append_take: "take m (xs @ take m ys) = take m (xs @ ys)"
  by (simp add: min_def)

lemma search_all_answers_fresh:
  assumes "answers E cands"
  shows "distinct ts \<Longrightarrow> set ts \<inter> fst ` set (search_movie_cache w) = {} \<Longrightarrow>
         length (search_movie_cache w) \<le> maxsize \<Longrightarrow>
         search_movie_cache (search_all E ts w) =
           take maxsize (rev (map (\<lambda>t. (t, JList (cands t))) ts) @ search_movie_cache w)"
proof (induction ts arbitrary: w)
  case Nil
  then show ?case by (simp add: search_all_def)
next
  case (Cons t ts)
  let ?w1 = "snd (search_movie E t w)"
  have sa: "search_all E (t # ts) w = search_all E ts ?w1"
    by (simp add: search_all_def)
  from Cons.prems(2) have "map_of (search_movie_cache w) t = None"
    by (simp add: map_of_eq_None_iff)
  from search_movie_answers_miss [OF assms this]
  have c1: "search_movie_cache ?w1 = take maxsize ((t, JList (cands t)) # search_movie_cache w)"
    by simp
  have "fst ` set (search_movie_cache ?w1) \<subseteq> insert t (fst ` set (search_movie_cache w))"
    unfolding c1 by (auto dest!: in_set_takeD)
  with Cons.prems have "set ts \<inter> fst ` set (search_movie_cache ?w1) = {}" by auto
  moreover have "length (search_movie_cache ?w1) \<le> maxsize"
    unfolding c1 by simp
  moreover have "distinct ts" using Cons.prems(1) by simp
  ultimately have "search_movie_cache (search_all E ts ?w1) =
      take maxsize (rev (map (\<lambda>t. (t, JList (cands t))) ts) @ search_movie_cache ?w1)"
    by (intro Cons.IH)
  then show ?case
    unfolding sa c1 by (simp add: take_append_take)
qed

lemma distinct_other_titles: "distinct other_titles"
  unfolding other_titles_def
  by (simp add: distinct_map inj_on_def)

lemma length_other_titles: "length other_titles = 500"
  by (simp add: other_titles_def)

lemma Heat_other: "''Heat'' \<notin> set other_titles"
proof
  assume "''Heat'' \<in> set other_titles"
  then obtain i where "''Heat'' = replicate i (CHR ''x'')"
    unfolding other_titles_def by auto
  then have "CHR ''H'' \<in> set (replicate i (CHR ''x''))"
    by (metis list.set_intros(1))
  then show False by simp
qed

text \<open>
  C8, as stated, fails: after a lookup of \<open>Heat\<close> that returned, 500 lookups of other
  titles evict its entry, and the next lookup of \<open>Heat\<close> issues a request again.
\<close>

theorem search_movie_evicted_counterexample:
  "fst (search_movie always_ok ''Heat'' world0) = Inr (JList []) \<and>
   length other_titles = 500 \<and>
   calls (snd (search_movie always_ok ''Heat''
                 (search_all always_ok other_titles (snd (search_movie always_ok ''Heat'' world0)))))
     = Suc (calls (search_all always_ok other_titles
                     (snd (search_movie always_ok ''Heat'' world0))))"
proof -
  have a: "answers always_ok (\<lambda>t. [])"
    by (simp add: answers_def always_ok_def mock_env_def reply_def)
  let ?w1 = "snd (search_movie always_ok ''Heat'' world0)"
  let ?w2 = "search_all always_ok other_titles ?w1"
  have "map_of (search_movie_cache world0) ''Heat'' = None" by (simp add: world0_def)
  from search_movie_answers_miss [OF a this]
  have 1: "fst (search_movie always_ok ''Heat'' world0) = Inr (JList [])"
    and c1: "search_movie_cache ?w1 = [(''Heat'', JList [])]"
    by (simp_all add: world0_def maxsize_def)
  have "set other_titles \<inter> fst ` set (search_movie_cache ?w1) = {}"
    unfolding c1 using Heat_other by simp
  moreover have "length (search_movie_cache ?w1) \<le> maxsize"
    unfolding c1 by (simp add: maxsize_def)
  ultimately have "search_movie_cache ?w2 =
      take maxsize (rev (map (\<lambda>t. (t, JList [])) other_titles) @ search_movie_cache ?w1)"
    by (intro search_all_answers_fresh [OF a distinct_other_titles])
  then have c2: "search_movie_cache ?w2 = rev (map (\<lambda>t. (t, JList [])) other_titles)"
    unfolding c1 by (simp add: maxsize_def length_other_titles)
  have "map_of (search_movie_cache ?w2) ''Heat'' = None"
    unfolding c2 using Heat_other by (simp add: map_of_eq_None_iff image_image)
  from search_movie_answers_miss [OF a this] 1 length_other_titles show ?thesis by simp
qed

theorem search_movie_memoized_witness:
  "fst (search_movie always_ok ''Heat''
          (search_all always_ok [''Alien'', ''Heat'', ''Alien'']
             (snd (search_movie always_ok ''Heat'' world0)))) = Inr (JList []) \<and>
   calls (snd (search_movie always_ok ''Heat''
          (search_all always_ok [''Alien'', ''Heat'', ''Alien'']
             (snd (search_movie always_ok ''Heat'' world0))))) =
   calls (search_all always_ok [''Alien'', ''Heat'', ''Alien'']
             (snd (search_movie always_ok ''Heat'' world0)))"
proof -
  have a: "answers always_ok (\<lambda>t. [])"
    by (simp add: answers_def always_ok_def mock_env_def reply_def)
  have "map_of (search_movie_cache world0) ''Heat'' = None" by (simp add: world0_def)
  from search_movie_answers_miss [OF a this]
  have first: "search_movie always_ok ''Heat'' world0 =
                 (Inr (JList []), snd (search_movie always_ok ''Heat'' world0))"
    by (simp add: prod_eq_iff)
  have "card (set [''Alien'', ''Heat'', ''Alien''] - {''Heat''})
          \<le> length [''Alien'', ''Heat'', ''Alien'']"
    by (rule order_trans [OF card_Diff1_le card_length])
  then have few: "card (set [''Alien'', ''Heat'', ''Alien''] - {''Heat''}) < maxsize"
    unfolding maxsize_def by simp
  from search_movie_memoized [OF first few] show ?thesis by simp
qed


theorem cached_mapping_returned_witness:
  "map_movielens_to_tmdb file_env toy_movies world_cached =
     (Inr (Loaded (JDict [])), world_cached)"
  using cached_mapping_returned
          [where w = world_cached and c = "''{}''" and E = file_env and movies_df = toy_movies]
  by (simp add: world_cached_def file_env_def cache_file_def cache_dir_def)


lemma split_from_first:
  "sep \<noteq> [] \<Longrightarrow> item_0 (split_from sep acc s) = Inr (rev acc @ before_first sep s)"
proof (induction sep acc s rule: split_from.induct)
  case (1 sep acc s)
  show ?case
  proof (cases "prefix sep s")
    case True
    with 1(3) have "s \<noteq> []" by auto
    then obtain c cs where "s = c # cs" by (cases s) auto
    with True 1(3) show ?thesis
      by (subst split_from.simps) (simp add: item_0_def)
  next
    case False
    show ?thesis
    proof (cases s)
      case Nil
      then show ?thesis by (subst split_from.simps) (simp add: item_0_def)
    next
      case (Cons c cs)
      with False 1(2) [OF _ Cons] 1(3) show ?thesis
        by (subst split_from.simps) simp
    qed
  qed
qed

lemma lookup_title:
  "sum_bind (py_split s '' ('') item_0 = Inr (before_first '' ('' s)"
  using split_from_first [of "'' (''" "[]" s]
  by (simp add: sum_bind_def py_split_def)

lemma before_first_prefix: "prefix (before_first sep s) s"
  by (induction s) auto

lemma before_first_cut:
  "before_first sep s = s \<or> prefix (before_first sep s @ sep) s"
  by (induction s) auto

lemma before_first_least:
  "i < length (before_first sep s) \<Longrightarrow> \<not> prefix sep (drop i s)"
proof (induction s arbitrary: i)
  case Nil
  then show ?case by simp
next
  case (Cons c cs)
  then show ?case by (cases i) (auto split: if_splits)
qed


lemma search_movie_fs: "fs (snd (search_movie E t w)) = fs w"
proof (cases "map_of (search_movie_cache w) t")
  case (Some v)
  then show ?thesis unfolding search_movie_hit [OF Some] by simp
next
  case None
  obtain res w1 where b: "search_movie_body E t w = (res, w1)"
    by (cases "search_movie_body E t w")
  from search_movie_body_frame [OF b] None b show ?thesis
    by (cases res) (simp_all add: search_movie_def)
qed

lemma search_movie_answers:
  assumes a: "answers E cands" and c: "consistent cands w"
  shows "fst (search_movie E t w) = Inr (JList (cands t)) \<and>
         consistent cands (snd (search_movie E t w))"
proof (cases "map_of (search_movie_cache w) t")
  case (Some v)
  then have "(t, v) \<in> set (search_movie_cache w)" by (rule map_of_SomeD)
  with c have v: "v = JList (cands t)" unfolding consistent_def by auto
  show ?thesis
    unfolding search_movie_hit [OF Some] using c v by (auto simp: consistent_def)
next
  case None
  from search_movie_answers_miss [OF a None] c show ?thesis
    by (auto simp: consistent_def dest!: in_set_takeD)
qed

lemma external_id_subscript: "external_id c = Some i \<Longrightarrow> subscript_id c = Inr i"
  by (cases c) (simp_all add: external_id_def)

lemma first_candidate_id:
  "external_id c = Some i \<Longrightarrow>
   sum_bind (sum_bind (Inr c) subscript_id) f = f i"
  by (simp add: sum_bind_def external_id_subscript)

lemma quarter_sleep:
  "time_sleep E (1 / 4) w = Inr (w\<lparr>trace := trace w @ [Sleep (1 / 4)]\<rparr>)"
  by (simp add: time_sleep_def)

lemma mapping_loop_raises:
  "search_movie E (before_first '' ('' (title row)) w = (Inl e, w1) \<Longrightarrow>
   mapping_loop E (row # rows) m w = (Inl e, w1)"
  by (simp add: lookup_title)

lemma mapping_loop_none:
  "search_movie E (before_first '' ('' (title row)) w = (Inr (JList []), w1) \<Longrightarrow>
   mapping_loop E (row # rows) m w =
     mapping_loop E rows m (w1\<lparr>trace := trace w1 @ [Sleep (1 / 4)]\<rparr>)"
  by (simp add: lookup_title quarter_sleep)

lemma mapping_loop_found:
  "search_movie E (before_first '' ('' (title row)) w = (Inr (JList (c # cs)), w1) \<Longrightarrow>
   external_id c = Some i \<Longrightarrow>
   mapping_loop E (row # rows) m w =
     mapping_loop E rows (AList.update (movieId row) i m)
       (w1\<lparr>trace := trace w1 @ [Sleep (1 / 4)]\<rparr>)"
  by (simp add: lookup_title quarter_sleep first_candidate_id)

lemma map_movielens_to_tmdb_no_file:
  "fs w cache_file = None \<Longrightarrow>
   map_movielens_to_tmdb E movies_df w =
     (case mapping_loop E movies_df [] w of
        (Inl e, w1) \<Rightarrow> (Inl e, w1)
      | (Inr mapping, w1) \<Rightarrow>
          (case open_write w1 cache_dir cache_file (json_dump E mapping) of
             Inl e \<Rightarrow> (Inl e, w1)
           | Inr w2 \<Rightarrow> (Inr (Built mapping), w2)))"
  by (simp add: map_movielens_to_tmdb_def os_path_exists_def)

lemma mapping_loop_answers:
  assumes a: "answers E cands"
    and ids: "\<forall>t c cs. cands t = c # cs \<longrightarrow> external_id c \<noteq> None"
  shows "consistent cands w \<Longrightarrow>
         fst (mapping_loop E rows m w) = Inr (foldl (add_entry cands) m rows) \<and>
         fs (snd (mapping_loop E rows m w)) = fs w"
proof (induction rows arbitrary: m w)
  case Nil
  show ?case by simp
next
  case (Cons row rows)
  let ?t = "before_first '' ('' (title row)"
  obtain res w1 where sm: "search_movie E ?t w = (res, w1)"
    by (cases "search_movie E ?t w")
  from search_movie_answers [OF a Cons.prems, of ?t] sm
  have res: "res = Inr (JList (cands ?t))" and c1: "consistent cands w1" by simp_all
  from search_movie_fs [of E ?t w] sm have fs1: "fs w1 = fs w" by simp
  let ?w2 = "w1\<lparr>trace := trace w1 @ [Sleep (1 / 4)]\<rparr>"
  have c2: "consistent cands ?w2" using c1 by (simp add: consistent_def)
  have step: "mapping_loop E (row # rows) m w = mapping_loop E rows (add_entry cands m row) ?w2"
  proof (cases "cands ?t")
    case Nil
    with sm res mapping_loop_none [of E row w w1 rows m] show ?thesis
      by (simp add: add_entry_def spec_entry_def)
  next
    case (Cons c cs)
    with ids obtain i where i: "external_id c = Some i" by blast
    with Cons sm res mapping_loop_found [of E row w c cs w1 i rows m] show ?thesis
      by (simp add: add_entry_def spec_entry_def)
  qed
  from Cons.IH [OF c2, of "add_entry cands m row"] fs1 show ?case
    unfolding step by simp
qed

lemma map_movielens_to_tmdb_answers:
  assumes no_file: "fs w cache_file = None"
    and dir: "fs w cache_dir = Some Directory"
    and net: "answers E cands"
    and cache: "consistent cands w"
    and ids: "\<forall>t c cs. cands t = c # cs \<longrightarrow> external_id c \<noteq> None"
  shows "fst (map_movielens_to_tmdb E movies_df w) =
           Inr (Built (foldl (add_entry cands) [] movies_df))"
proof -
  obtain res w1 where lp: "mapping_loop E movies_df [] w = (res, w1)"
    by (cases "mapping_loop E movies_df [] w")
  from mapping_loop_answers [OF net ids cache, of movies_df "[]"] lp
  have "res = Inr (foldl (add_entry cands) [] movies_df)" and "fs w1 = fs w" by simp_all
  with no_file dir lp show ?thesis
    unfolding map_movielens_to_tmdb_no_file [OF no_file] by (simp add: open_write_def)
qed

lemma toy_lookup: "before_first '' ('' ''Toy Story (1995)'' = ''Toy Story''"
  by simp

lemma zzyzx_lookup: "before_first '' ('' ''Zzyzx Road (2006)'' = ''Zzyzx Road''"
  by simp

lemma toy_facts:
  "fs toy_world cache_file = None" "fs toy_world cache_dir = Some Directory"
  "answers toy_env toy_cands" "consistent toy_cands toy_world"
  "\<forall>t c cs. toy_cands t = c # cs \<longrightarrow> external_id c \<noteq> None"
  by (simp_all add: toy_world_def world0_def cache_file_def cache_dir_def answers_def
        toy_env_def reply_def consistent_def toy_cands_def toy_story_def external_id_def)

text \<open>
  C7, as stated, fails: when two rows have the same movie id, the first with a candidate
  and the second without, the mapping keeps the entry of the first, so the key of a row
  whose candidate list is empty is not omitted.
\<close>

theorem duplicate_key_counterexample:
  "fst (map_movielens_to_tmdb toy_env dup_movies toy_world) = Inr (Built [(1, JInt 862)]) \<and>
   movieId (dup_movies ! 1) = 1 \<and>
   fst (search_movie toy_env (before_first '' ('' (title (dup_movies ! 1))) toy_world) =
     Inr (JList [])"
proof -
  have "fst (map_movielens_to_tmdb toy_env dup_movies toy_world) = Inr (Built [(1, JInt 862)])"
    unfolding map_movielens_to_tmdb_answers [OF toy_facts]
    by (simp add: dup_movies_def add_entry_def spec_entry_def toy_lookup zzyzx_lookup
          toy_cands_def toy_story_def external_id_def)
  moreover have "movieId (dup_movies ! 1) = 1"
    by (simp add: dup_movies_def)
  moreover have
    "fst (search_movie toy_env (before_first '' ('' (title (dup_movies ! 1))) toy_world) =
       Inr (JList [])"
    using search_movie_answers [OF toy_facts(3,4), of "''Zzyzx Road''"]
    by (simp add: dup_movies_def zzyzx_lookup toy_cands_def)
  ultimately show ?thesis by blast
qed

text \<open>
  C7, amended: with no mapping file, \<open>map_movielens_to_tmdb\<close> runs its loop over the rows
  from the empty mapping, writes the mapping that the loop returns to the mapping file
  and returns it. For each row the loop calls \<open>search_movie\<close> on the row's title cut at
  its first \<open>" ("\<close> (the title looked up is the whole title or is followed in it by
  \<open>" ("\<close>, and no \<open>" ("\<close> starts inside it). When the call returns a non-empty list
  whose first candidate has an id, the loop sets the entry of the row's movie id to that
  id, which replaces an entry that an earlier row with the same movie id has made; when
  the call returns the empty list, it leaves the mapping as it is, so no entry is made
  for the failure, and the movie id has no entry unless an earlier row gave it one; when
  the call raises, the loop ends with that exception. After a row it sleeps a quarter of
  a second and goes on with the rows left.
\<close>

theorem mapping_row_by_row:
  fixes E row rows mapping w movies_df
  defines "t \<equiv> before_first '' ('' (title row)"
  shows
    "(t = title row \<or> prefix (t @ '' ('') (title row)) \<and>
     (\<forall>i < length t. \<not> prefix '' ('' (drop i (title row))) \<and>
     (\<forall>e w1. search_movie E t w = (Inl e, w1) \<longrightarrow>
        mapping_loop E (row # rows) mapping w = (Inl e, w1)) \<and>
     (\<forall>w1. search_movie E t w = (Inr (JList []), w1) \<longrightarrow>
        mapping_loop E (row # rows) mapping w =
          mapping_loop E rows mapping (w1\<lparr>trace := trace w1 @ [Sleep (1 / 4)]\<rparr>)) \<and>
     (\<forall>c cs i w1. search_movie E t w = (Inr (JList (c # cs)), w1) \<and> external_id c = Some i \<longrightarrow>
        mapping_loop E (row # rows) mapping w =
          mapping_loop E rows (AList.update (movieId row) i mapping)
            (w1\<lparr>trace := trace w1 @ [Sleep (1 / 4)]\<rparr>) \<and>
        map_of (AList.update (movieId row) i mapping) = (map_of mapping)(movieId row \<mapsto> i)) \<and>
     mapping_loop E [] mapping w = (Inr mapping, w) \<and>
     (fs w cache_file = None \<longrightarrow>
        map_movielens_to_tmdb E movies_df w =
          (case mapping_loop E movies_df [] w of
             (Inl e, w1) \<Rightarrow> (Inl e, w1)
           | (Inr m, w1) \<Rightarrow>
               (case open_write w1 cache_dir cache_file (json_dump E m) of
                  Inl e \<Rightarrow> (Inl e, w1)
                | Inr w2 \<Rightarrow> (Inr (Built m), w2))))"
proof -
  have "t = title row \<or> prefix (t @ '' ('') (title row)"
    unfolding t_def by (rule before_first_cut)
  moreover have "\<forall>i < length t. \<not> prefix '' ('' (drop i (title row))"
    unfolding t_def using before_first_least by blast
  moreover have "\<forall>e w1. search_movie E t w = (Inl e, w1) \<longrightarrow>
        mapping_loop E (row # rows) mapping w = (Inl e, w1)"
    unfolding t_def using mapping_loop_raises by blast
  moreover have "\<forall>w1. search_movie E t w = (Inr (JList []), w1) \<longrightarrow>
        mapping_loop E (row # rows) mapping w =
          mapping_loop E rows mapping (w1\<lparr>trace := trace w1 @ [Sleep (1 / 4)]\<rparr>)"
    unfolding t_def using mapping_loop_none by blast
  moreover have "\<forall>c cs i w1.
        search_movie E t w = (Inr (JList (c # cs)), w1) \<and> external_id c = Some i \<longrightarrow>
        mapping_loop E (row # rows) mapping w =
          mapping_loop E rows (AList.update (movieId row) i mapping)
            (w1\<lparr>trace := trace w1 @ [Sleep (1 / 4)]\<rparr>) \<and>
        map_of (AList.update (movieId row) i mapping) = (map_of mapping)(movieId row \<mapsto> i)"
    unfolding t_def using mapping_loop_found by (simp add: update_conv')
  moreover have "mapping_loop E [] mapping w = (Inr mapping, w)"
    by simp
  moreover have "fs w cache_file = None \<longrightarrow>
        map_movielens_to_tmdb E movies_df w =
          (case mapping_loop E movies_df [] w of
             (Inl e, w1) \<Rightarrow> (Inl e, w1)
           | (Inr m, w1) \<Rightarrow>
               (case open_write w1 cache_dir cache_file (json_dump E m) of
                  Inl e \<Rightarrow> (Inl e, w1)
                | Inr w2 \<Rightarrow> (Inr (Built m), w2)))"
    using map_movielens_to_tmdb_no_file by blast
  ultimately show ?thesis by (intro conjI)
qed

theorem mapping_row_by_row_witness:
  "fst (map_movielens_to_tmdb toy_env toy_movies toy_world) = Inr (Built [(1, JInt 862)])"
proof -
  define r1 where "r1 = \<lparr>movieId = 1, title = ''Toy Story (1995)'', genres = ''Animation''\<rparr>"
  define r2 where "r2 = \<lparr>movieId = 2, title = ''Zzyzx Road (2006)'', genres = ''Thriller''\<rparr>"
  have rows: "toy_movies = [r1, r2]"
    by (simp add: toy_movies_def r1_def r2_def)
  have t1: "before_first '' ('' (title r1) = ''Toy Story''"
    and t2: "before_first '' ('' (title r2) = ''Zzyzx Road''"
    by (simp_all add: r1_def r2_def)
  define w1 where "w1 = snd (search_movie toy_env ''Toy Story'' toy_world)"
  define p1 where "p1 = w1\<lparr>trace := trace w1 @ [Sleep (1 / 4)]\<rparr>"
  define w2 where "w2 = snd (search_movie toy_env ''Zzyzx Road'' p1)"
  define p2 where "p2 = w2\<lparr>trace := trace w2 @ [Sleep (1 / 4)]\<rparr>"
  from search_movie_answers [OF toy_facts(3,4), of "''Toy Story''"]
  have s1: "search_movie toy_env (before_first '' ('' (title r1)) toy_world =
              (Inr (JList (toy_story # [])), w1)"
    and c1: "consistent toy_cands w1"
    by (simp_all add: prod_eq_iff t1 toy_cands_def w1_def)
  have id: "external_id toy_story = Some (JInt 862)"
    by (simp add: external_id_def toy_story_def)
  from c1 have cp1: "consistent toy_cands p1"
    by (simp add: consistent_def p1_def)
  from search_movie_answers [OF toy_facts(3) cp1, of "''Zzyzx Road''"]
  have s2: "search_movie toy_env (before_first '' ('' (title r2)) p1 = (Inr (JList []), w2)"
    by (simp_all add: prod_eq_iff t2 toy_cands_def w2_def)
  note first = mapping_row_by_row
    [where E = toy_env and row = r1 and rows = "[r2]" and mapping = "[]" and w = toy_world
       and movies_df = toy_movies]
  note second = mapping_row_by_row
    [where E = toy_env and row = r2 and rows = "[]" and mapping = "[(1, JInt 862)]" and w = p1
       and movies_df = toy_movies]
  note last = mapping_row_by_row
    [where E = toy_env and row = r2 and rows = "[]" and mapping = "[(1, JInt 862)]" and w = p2
       and movies_df = toy_movies]
  from first s1 id have
    "mapping_loop toy_env [r1, r2] [] toy_world =
       mapping_loop toy_env [r2] (AList.update (movieId r1) (JInt 862) []) p1"
    unfolding p1_def by blast
  also have "AList.update (movieId r1) (JInt 862) [] = [(1, JInt 862)]"
    by (simp add: r1_def)
  also from second s2 have
    "mapping_loop toy_env [r2] [(1, JInt 862)] p1 = mapping_loop toy_env [] [(1, JInt 862)] p2"
    unfolding p2_def by blast
  also from last have "mapping_loop toy_env [] [(1, JInt 862)] p2 = (Inr [(1, JInt 862)], p2)"
    by blast
  finally have loop: "mapping_loop toy_env toy_movies [] toy_world = (Inr [(1, JInt 862)], p2)"
    unfolding rows .
  have "fs p2 = fs toy_world"
    using search_movie_fs [of toy_env "''Toy Story''" toy_world]
      search_movie_fs [of toy_env "''Zzyzx Road''" p1]
    by (simp add: p2_def w2_def p1_def w1_def)
  with toy_facts(1,2) have "open_write p2 cache_dir cache_file (json_dump toy_env [(1, JInt 862)])
      = Inr (p2\<lparr>fs := (fs p2)(cache_file \<mapsto> File (json_dump toy_env [(1, JInt 862)]))\<rparr>)"
    by (simp add: open_write_def)
  with first toy_facts(1) loop show ?thesis by simp
qed

end
